theory Spec2Isabelle
  imports Main "HOL-Library.Char_ord" "HOL-Library.List_Lexorder"
begin

section \<open>Strings, case conversion and timestamps\<close>

text \<open>
  The program handles e-mail addresses with two different lower-casing functions:
  Python's \<^verbatim>\<open>str.lower()\<close> (in \<^verbatim>\<open>add_allowed_email\<close> and in the
  \<^verbatim>\<open>INSERT\<close> of \<^verbatim>\<open>get_or_create_user\<close>) and SQLite's built-in
  \<^verbatim>\<open>LOWER()\<close> (in every \<^verbatim>\<open>WHERE LOWER(email) = LOWER(?)\<close>).
  A \<^typ>\<open>char\<close> stands for a code point below 256 (Latin-1). On these code points
  Python lower-cases \<open>A\<close>..\<open>Z\<close> and the Latin-1 capitals U+00C0..U+00DE (U+00D7, the
  multiplication sign, is no letter); SQLite's \<^verbatim>\<open>LOWER\<close> converts the ASCII letters only.
\<close>

definition ascii_upper :: "char \<Rightarrow> bool" where
  "ascii_upper c \<longleftrightarrow> (65::nat) \<le> of_char c \<and> of_char c \<le> (90::nat)"

definition latin1_upper :: "char \<Rightarrow> bool" where
  "latin1_upper c \<longleftrightarrow>
     (192::nat) \<le> of_char c \<and> of_char c \<le> (222::nat) \<and> of_char c \<noteq> (215::nat)"

definition shift32 :: "char \<Rightarrow> char" where
  "shift32 c = char_of (of_char c + (32::nat))"

definition sql_lower_char :: "char \<Rightarrow> char" where
  "sql_lower_char c = (if ascii_upper c then shift32 c else c)"

definition py_lower_char :: "char \<Rightarrow> char" where
  "py_lower_char c = (if ascii_upper c \<or> latin1_upper c then shift32 c else c)"

definition sql_lower :: "string \<Rightarrow> string" where
  "sql_lower s = map sql_lower_char s"

definition py_lower :: "string \<Rightarrow> string" where
  "py_lower s = map py_lower_char s"

text \<open>
  \<^verbatim>\<open>CURRENT_TIMESTAMP\<close> is the text \<^verbatim>\<open>YYYY-MM-DD HH:MM:SS\<close> and
  \<^verbatim>\<open>datetime.now().isoformat()\<close> is a Python string; SQLite orders text bytewise,
  which is the lexicographic order of \<^typ>\<open>string\<close>. Every clock reading is an
  argument of the operation that takes it.
\<close>

type_synonym timestamp = string

section \<open>The schema\<close>

record user_row =
  u_id :: int
  u_email :: string
  u_name :: string
  u_is_admin :: bool
  u_created_at :: timestamp
  u_last_login :: "timestamp option"

record allowed_row =
  a_id :: int
  a_email :: string
  a_added_by :: string
  a_added_at :: timestamp

record note_row =
  n_id :: int
  n_user_id :: int
  n_content :: string
  n_created_at :: timestamp

text \<open>
  A table is the list of its rows in rowid order, the order of a table scan. The three
  \<open>seq\<close> fields are the rows of \<^verbatim>\<open>sqlite_sequence\<close> that \<^verbatim>\<open>AUTOINCREMENT\<close>
  keeps: the largest rowid each table ever used. The rowids that SQLite hands out are
  unbounded here: no table is taken to reach the last rowid of the 64-bit range. An
  integer that the caller passes is another matter: \<^verbatim>\<open>sqlite3\<close> binds it as a
  64-bit \<^verbatim>\<open>INTEGER\<close> and raises \<^verbatim>\<open>OverflowError\<close> when it does not fit.
\<close>

record database =
  users :: "user_row list"
  allowed_emails :: "allowed_row list"
  "notes" :: "note_row list"
  seq_users :: int
  seq_allowed_emails :: int
  seq_notes :: int

text \<open>The dataclass \<^verbatim>\<open>User\<close>.\<close>

record User =
  id' :: "int option"
  email :: string
  name :: string
  is_admin :: bool
  created_at :: string
  last_login :: "string option"

datatype error = IntegrityError | OverflowError

definition sqlite_int :: "int \<Rightarrow> bool" where
  "sqlite_int i \<longleftrightarrow> - (2 ^ 63) \<le> i \<and> i < 2 ^ 63"

definition next_rowid :: "int \<Rightarrow> int list \<Rightarrow> int" where
  "next_rowid seq ids = Max (set (seq # ids)) + 1"

text \<open>
  \<^verbatim>\<open>ORDER BY key DESC\<close>: the sorter is a stable merge sort fed in scan order, so rows
  with equal keys stay in scan order.
\<close>

fun insort_desc :: "('a \<Rightarrow> 'k::linorder) \<Rightarrow> 'a \<Rightarrow> 'a list \<Rightarrow> 'a list" where
  "insort_desc f x [] = [x]"
| "insort_desc f x (y # ys) =
     (if f x \<le> f y then y # insort_desc f x ys else x # y # ys)"

definition order_by_desc :: "('a \<Rightarrow> 'k::linorder) \<Rightarrow> 'a list \<Rightarrow> 'a list" where
  "order_by_desc f xs = foldl (\<lambda>acc x. insort_desc f x acc) [] xs"

section \<open>class Database\<close>

definition is_email_allowed :: "database \<Rightarrow> string \<Rightarrow> bool" where
  "is_email_allowed db e =
     (find (\<lambda>r. sql_lower (a_email r) = sql_lower e) (allowed_emails db) \<noteq> None)"

text \<open>
  \<^verbatim>\<open>INSERT OR IGNORE\<close>: a row whose e-mail is already there (the \<^verbatim>\<open>UNIQUE\<close>
  column compares bytewise) is dropped without an error. The rowid is drawn before the
  constraint is checked, so the sequence advances either way.
\<close>

definition add_allowed_email :: "database \<Rightarrow> string \<Rightarrow> string \<Rightarrow> timestamp \<Rightarrow> database" where
  "add_allowed_email db e added_by now =
     (let rid = next_rowid (seq_allowed_emails db) (map a_id (allowed_emails db)) in
      if py_lower e \<in> set (map a_email (allowed_emails db))
      then db\<lparr>seq_allowed_emails := rid\<rparr>
      else db\<lparr>allowed_emails := allowed_emails db @
                 [\<lparr>a_id = rid, a_email = py_lower e, a_added_by = added_by, a_added_at = now\<rparr>],
               seq_allowed_emails := rid\<rparr>)"

definition remove_allowed_email :: "database \<Rightarrow> string \<Rightarrow> database" where
  "remove_allowed_email db e =
     db\<lparr>allowed_emails :=
          filter (\<lambda>r. sql_lower (a_email r) \<noteq> sql_lower e) (allowed_emails db)\<rparr>"

text \<open>
  \<^verbatim>\<open>SELECT email FROM allowed_emails\<close> reads the column from the index that
  \<^verbatim>\<open>UNIQUE(email)\<close> creates, so the addresses come in the bytewise order of that
  index, not in rowid order.
\<close>

definition get_allowed_emails :: "database \<Rightarrow> string list" where
  "get_allowed_emails db = sort (map a_email (allowed_emails db))"

definition row_user :: "user_row \<Rightarrow> string option \<Rightarrow> User" where
  "row_user row ll =
     \<lparr>id' = Some (u_id row), email = u_email row, name = u_name row,
      is_admin = u_is_admin row, created_at = u_created_at row, last_login = ll\<rparr>"

text \<open>
  \<^verbatim>\<open>get_or_create_user\<close> takes three clock readings: \<open>sql_now\<close> is
  \<^verbatim>\<open>CURRENT_TIMESTAMP\<close> in the statement it executes, \<open>py_now1\<close> and \<open>py_now2\<close> are
  its calls of \<^verbatim>\<open>datetime.now().isoformat()\<close> in the order they are evaluated. The
  \<^verbatim>\<open>INSERT\<close> names the columns \<open>email\<close> and \<open>name\<close> only; the others take the
  defaults of the schema (\<open>is_admin\<close> false, \<open>created_at\<close> the current timestamp,
  \<open>last_login\<close> null). An \<^verbatim>\<open>INSERT\<close> that breaks \<^verbatim>\<open>UNIQUE(email)\<close> raises; the
  connection is closed without a commit and the database stays as it was.
\<close>

definition get_or_create_user ::
  "database \<Rightarrow> string \<Rightarrow> string \<Rightarrow> timestamp \<Rightarrow> string \<Rightarrow> string
     \<Rightarrow> error + (User option \<times> database)" where
  "get_or_create_user db e nm sql_now py_now1 py_now2 =
     (if \<not> is_email_allowed db e then Inr (None, db)
      else
        case find (\<lambda>r. sql_lower (u_email r) = sql_lower e) (users db) of
          Some row \<Rightarrow>
            Inr (Some (row_user row (Some py_now1)),
                 db\<lparr>users := map (\<lambda>r. if u_id r = u_id row
                                        then r\<lparr>u_last_login := Some sql_now\<rparr> else r)
                                  (users db)\<rparr>)
        | None \<Rightarrow>
            if py_lower e \<in> set (map u_email (users db)) then Inl IntegrityError
            else
              let rid = next_rowid (seq_users db) (map u_id (users db)) in
              Inr (Some \<lparr>id' = Some rid, email = py_lower e, name = nm, is_admin = False,
                         created_at = py_now1, last_login = Some py_now2\<rparr>,
                   db\<lparr>users := users db @
                          [\<lparr>u_id = rid, u_email = py_lower e, u_name = nm,
                            u_is_admin = False, u_created_at = sql_now,
                            u_last_login = None\<rparr>],
                      seq_users := rid\<rparr>))"

definition get_user_by_email :: "database \<Rightarrow> string \<Rightarrow> User option" where
  "get_user_by_email db e =
     (case find (\<lambda>r. sql_lower (u_email r) = sql_lower e) (users db) of
        Some row \<Rightarrow> Some (row_user row (u_last_login row))
      | None \<Rightarrow> None)"

definition get_all_users :: "database \<Rightarrow> User list" where
  "get_all_users db =
     map (\<lambda>row. row_user row (u_last_login row)) (order_by_desc u_created_at (users db))"

definition set_admin :: "database \<Rightarrow> string \<Rightarrow> bool \<Rightarrow> database" where
  "set_admin db e adm =
     db\<lparr>users := map (\<lambda>r. if sql_lower (u_email r) = sql_lower e
                            then r\<lparr>u_is_admin := adm\<rparr> else r) (users db)\<rparr>"

text \<open>
  No statement of the program turns \<^verbatim>\<open>PRAGMA foreign_keys\<close> on, so SQLite does not
  check the \<^verbatim>\<open>FOREIGN KEY\<close> clause of \<open>notes\<close>: \<^verbatim>\<open>add_note\<close> never looks at
  \<open>users\<close>.
\<close>

definition add_note ::
  "database \<Rightarrow> int \<Rightarrow> string \<Rightarrow> timestamp \<Rightarrow> error + (int \<times> database)" where
  "add_note db user_id content now =
     (if \<not> sqlite_int user_id then Inl OverflowError
      else
        let rid = next_rowid (seq_notes db) (map n_id (notes db)) in
        Inr (rid,
             db\<lparr>notes := notes db @
                    [\<lparr>n_id = rid, n_user_id = user_id, n_content = content,
                      n_created_at = now\<rparr>],
                seq_notes := rid\<rparr>))"

definition get_notes :: "database \<Rightarrow> int \<Rightarrow> error + note_row list" where
  "get_notes db user_id =
     (if \<not> sqlite_int user_id then Inl OverflowError
      else Inr (order_by_desc n_created_at (filter (\<lambda>n. n_user_id n = user_id) (notes db))))"

definition delete_note :: "database \<Rightarrow> int \<Rightarrow> int \<Rightarrow> error + (bool \<times> database)" where
  "delete_note db note_id user_id =
     (if \<not> sqlite_int note_id \<or> \<not> sqlite_int user_id then Inl OverflowError
      else
        let rowcount =
              length (filter (\<lambda>n. n_id n = note_id \<and> n_user_id n = user_id) (notes db)) in
        Inr (rowcount > 0,
             db\<lparr>notes :=
                  filter (\<lambda>n. \<not> (n_id n = note_id \<and> n_user_id n = user_id)) (notes db)\<rparr>))"

definition init_db :: database where
  "init_db = \<lparr>users = [], allowed_emails = [], notes = [],
              seq_users = 0, seq_allowed_emails = 0, seq_notes = 0\<rparr>"

section \<open>The session and the handlers of \<^verbatim>\<open>create_app\<close>\<close>

text \<open>
  The session is a dictionary; \<^verbatim>\<open>session.get(k)\<close> is tested for truth. The
  handlers are closures of \<^verbatim>\<open>create_app\<close> with the database \<^verbatim>\<open>db\<close> in scope:
  each takes the database and returns it with its result.
\<close>

datatype session_value = SStr string | SInt int | SBool bool | SNone

type_synonym session = "string \<Rightarrow> session_value option"

fun truthy :: "session_value option \<Rightarrow> bool" where
  "truthy None = False"
| "truthy (Some (SStr s)) = (s \<noteq> [])"
| "truthy (Some (SInt i)) = (i \<noteq> 0)"
| "truthy (Some (SBool b)) = b"
| "truthy (Some SNone) = False"

datatype response = RedirectResponse string nat

record oauth_info =
  info_email :: "string option"
  info_name :: "string option"
  info_email_verified :: "bool option"

definition auth_email :: "oauth_info \<Rightarrow> string" where
  "auth_email info = (case info_email info of Some x \<Rightarrow> x | None \<Rightarrow> [])"

definition auth_name :: "oauth_info \<Rightarrow> string" where
  "auth_name info =
     (case info_name info of
        Some x \<Rightarrow> if x = [] then takeWhile (\<lambda>c. c \<noteq> CHR ''@'') (auth_email info) else x
      | None \<Rightarrow> takeWhile (\<lambda>c. c \<noteq> CHR ''@'') (auth_email info))"

definition get_auth ::
  "database \<Rightarrow> oauth_info \<Rightarrow> session \<Rightarrow> timestamp \<Rightarrow> string \<Rightarrow> string
     \<Rightarrow> error + (response \<times> session \<times> database)" where
  "get_auth db info session sql_now py_now1 py_now2 =
     (if info_email_verified info \<noteq> Some True
      then Inr (RedirectResponse ''/error?msg=Email+not+verified'' 303, session, db)
      else
        case get_or_create_user db (auth_email info) (auth_name info) sql_now py_now1 py_now2 of
          Inl err \<Rightarrow> Inl err
        | Inr (Some user, db') \<Rightarrow>
            Inr (RedirectResponse ''/'' 303,
                 session(''user_email'' \<mapsto> SStr (email user),
                         ''user_name'' \<mapsto> SStr (name user),
                         ''user_id'' \<mapsto> (case id' user of Some i \<Rightarrow> SInt i | None \<Rightarrow> SNone),
                         ''is_admin'' \<mapsto> SBool (is_admin user)),
                 db')
        | Inr (None, db') \<Rightarrow>
            Inr (RedirectResponse
                   (''/error?msg=Access+denied.+Email+'' @ auth_email info @ ''+is+not+authorized.'')
                   303,
                 session, db'))"

definition require_auth :: "database \<Rightarrow> session \<Rightarrow> response option \<times> database" where
  "require_auth db session =
     (if \<not> truthy (session ''user_email'')
      then (Some (RedirectResponse ''/login'' 303), db) else (None, db))"

definition require_admin :: "database \<Rightarrow> session \<Rightarrow> response option \<times> database" where
  "require_admin db session =
     (if \<not> truthy (session ''is_admin'')
      then (Some (RedirectResponse ''/error?msg=Admin+access+required'' 303), db)
      else (None, db))"

section \<open>Example states\<close>

text \<open>
  A fresh database after \<^verbatim>\<open>add_allowed_email("Foo@Bar.com")\<close>; the same after the
  first login of that address; and a database with one note of user 1.
\<close>

definition demo_allow :: database where
  "demo_allow = add_allowed_email init_db ''Foo@Bar.com'' ''system'' ''2024-01-01 10:00:00''"

definition demo_logged_in :: database where
  "demo_logged_in =
     \<lparr>users = [\<lparr>u_id = 1, u_email = ''foo@bar.com'', u_name = ''Foo'', u_is_admin = False,
                 u_created_at = ''2024-01-01 10:00:05'', u_last_login = None\<rparr>],
      allowed_emails = [\<lparr>a_id = 1, a_email = ''foo@bar.com'', a_added_by = ''system'',
                          a_added_at = ''2024-01-01 10:00:00''\<rparr>],
      notes = [], seq_users = 1, seq_allowed_emails = 1, seq_notes = 0\<rparr>"

text \<open>The database after \<^verbatim>\<open>add_note\<close> (as it was, should the call raise).\<close>

definition with_note :: "database \<Rightarrow> int \<Rightarrow> string \<Rightarrow> timestamp \<Rightarrow> database" where
  "with_note db user_id content now =
     (case add_note db user_id content now of Inr (_, db') \<Rightarrow> db' | Inl _ \<Rightarrow> db)"

definition demo_note :: database where
  "demo_note = with_note init_db 1 ''hello'' ''2024-01-01 10:00:00''"

text \<open>
  Three notes of user 1 written within one second, and three written a second apart.
\<close>

definition demo_same_second :: database where
  "demo_same_second =
     with_note (with_note (with_note init_db 1 ''N1'' ''2024-01-01 10:00:00'')
       1 ''N2'' ''2024-01-01 10:00:00'') 1 ''N3'' ''2024-01-01 10:00:00''"

definition demo_three :: database where
  "demo_three =
     with_note (with_note (with_note init_db 1 ''N1'' ''2024-01-01 10:00:00'')
       1 ''N2'' ''2024-01-01 10:00:01'') 1 ''N3'' ''2024-01-01 10:00:02''"


definition accent_email :: string where
  "accent_email = CHR 0xC9 # ''@x.com''"

definition demo_accent :: database where
  "demo_accent = add_allowed_email init_db accent_email ''admin'' ''2024-01-01 10:00:00''"

text \<open>
  The same after the first login of that address in its stored, lower-case spelling
  (U+00E9).
\<close>

definition demo_accent_user :: database where
  "demo_accent_user =
     \<lparr>users = [\<lparr>u_id = 1, u_email = py_lower accent_email, u_name = ''E'',
                 u_is_admin = False, u_created_at = ''2024-01-01 10:00:05'',
                 u_last_login = None\<rparr>],
      allowed_emails = [\<lparr>a_id = 1, a_email = py_lower accent_email, a_added_by = ''admin'',
                          a_added_at = ''2024-01-01 10:00:00''\<rparr>],
      notes = [], seq_users = 1, seq_allowed_emails = 1, seq_notes = 0\<rparr>"

text \<open>The identity the provider reports, and the session the first login leaves.\<close>

definition demo_info :: oauth_info where
  "demo_info = \<lparr>info_email = Some ''Foo@Bar.com'', info_name = None,
                 info_email_verified = Some True\<rparr>"

definition demo_session :: session where
  "demo_session =
     (case get_auth demo_allow demo_info Map.empty ''2024-01-01 10:00:05''
             ''2024-01-01T11:00:05.000001'' ''2024-01-01T11:00:05.000002'' of
        Inr (_, s, _) \<Rightarrow> s
      | Inl _ \<Rightarrow> Map.empty)"

section \<open>Invariants of the schema\<close>

text \<open>
  What \<^verbatim>\<open>UNIQUE(email)\<close> and the lower-casing of \<^verbatim>\<open>add_allowed_email\<close>, the
  only writer of the table, maintain on \<open>allowed_emails\<close>.
\<close>

definition allow_list_ok :: "database \<Rightarrow> bool" where
  "allow_list_ok db \<longleftrightarrow>
     distinct (map a_email (allowed_emails db)) \<and>
     (\<forall>r \<in> set (allowed_emails db). py_lower (a_email r) = a_email r)"

section \<open>Case conversion\<close>

lemma py_lower_char_idem: "py_lower_char (py_lower_char c) = py_lower_char c"
  by (auto simp: py_lower_char_def ascii_upper_def latin1_upper_def shift32_def)

lemma sql_lower_char_idem: "sql_lower_char (sql_lower_char c) = sql_lower_char c"
  by (auto simp: sql_lower_char_def ascii_upper_def shift32_def)

lemma sql_py_lower_char: "sql_lower_char (py_lower_char c) = py_lower_char c"
  by (auto simp: sql_lower_char_def py_lower_char_def ascii_upper_def latin1_upper_def
      shift32_def)

lemma py_sql_lower_char: "py_lower_char (sql_lower_char c) = py_lower_char c"
  by (auto simp: sql_lower_char_def py_lower_char_def ascii_upper_def latin1_upper_def
      shift32_def)

lemma py_lower_idem: "py_lower (py_lower s) = py_lower s"
  by (simp add: py_lower_def py_lower_char_idem)

lemma sql_lower_idem: "sql_lower (sql_lower s) = sql_lower s"
  by (simp add: sql_lower_def sql_lower_char_idem)

lemma sql_lower_py_lower: "sql_lower (py_lower s) = py_lower s"
  by (simp add: sql_lower_def py_lower_def sql_py_lower_char)

lemma py_lower_sql_lower: "py_lower (sql_lower s) = py_lower s"
  by (simp add: sql_lower_def py_lower_def py_sql_lower_char)

text \<open>Two strings that SQLite's \<^verbatim>\<open>LOWER\<close> identifies are identified by Python's too.\<close>

lemma sql_lower_eq_py_lower_eq: "sql_lower a = sql_lower b \<Longrightarrow> py_lower a = py_lower b"
  by (metis py_lower_sql_lower)

section \<open>The allow-list gate\<close>

lemma is_email_allowed_iff:
  "is_email_allowed db e \<longleftrightarrow> (\<exists>r \<in> set (allowed_emails db). sql_lower (a_email r) = sql_lower e)"
  by (auto simp: is_email_allowed_def find_None_iff)



section \<open>Revocation\<close>

lemma not_allowed_after_remove:
  "sql_lower e' = sql_lower e \<Longrightarrow> \<not> is_email_allowed (remove_allowed_email db e) e'"
  by (simp add: is_email_allowed_iff remove_allowed_email_def)

text \<open>
  \<^verbatim>\<open>remove_allowed_email\<close> leaves every row of \<open>users\<close> and of \<open>notes\<close> as it was,
  whether a user row for the address exists or not. When the login spells the address as
  the removal did, up to the case of its ASCII letters, the next
  \<^verbatim>\<open>get_or_create_user\<close> returns \<^verbatim>\<open>None\<close> and changes nothing.
\<close>

lemma remove_allowed_email_frame:
  "users (remove_allowed_email db e) = users db \<and> notes (remove_allowed_email db e) = notes db"
  by (simp add: remove_allowed_email_def)

lemma revocation_same_spelling:
  assumes "sql_lower e' = sql_lower e"
  shows "get_or_create_user (remove_allowed_email db e) e' nm sql_now py_now1 py_now2 =
           Inr (None, remove_allowed_email db e)"
  using not_allowed_after_remove [OF assms, of db] by (simp add: get_or_create_user_def)

lemma revocation_same_spelling_example:
  "users (remove_allowed_email demo_logged_in ''FOO@bar.com'') = users demo_logged_in \<and>
   map u_email (users demo_logged_in) = [''foo@bar.com''] \<and>
   get_or_create_user (remove_allowed_email demo_logged_in ''FOO@bar.com'') ''foo@bar.com''
       ''Foo'' ''2024-01-02 09:00:00'' ''2024-01-02T10:00:00.000001''
       ''2024-01-02T10:00:00.000002'' =
     Inr (None, remove_allowed_email demo_logged_in ''FOO@bar.com'')"
proof -
  have v: "sql_lower ''foo@bar.com'' = sql_lower ''FOO@bar.com''" by code_simp
  have u: "map u_email (users demo_logged_in) = [''foo@bar.com'']"
    by (simp add: demo_logged_in_def)
  from revocation_same_spelling [OF v] remove_allowed_email_frame u show ?thesis by blast
qed

text \<open>
  C7. The address with the capital U+00C9 is put on the allow-list, which stores it with
  U+00E9, and its user logs in: that is \<open>demo_accent_user\<close>. Removing the address as
  it was typed leaves the \<open>users\<close> table as it was, as the claim says, but removes no
  row of the allow-list either: the query compares \<^verbatim>\<open>LOWER\<close> of the stored address
  with \<^verbatim>\<open>LOWER\<close> of the typed one, and SQLite's \<^verbatim>\<open>LOWER\<close> leaves U+00C9 alone. The
  next login of the user is not denied.
\<close>

theorem revocation_accent_not_denied:
  "get_or_create_user demo_accent (py_lower accent_email) ''E'' ''2024-01-01 10:00:05''
       ''2024-01-01T11:00:05.000001'' ''2024-01-01T11:00:05.000002'' =
     Inr (Some \<lparr>id' = Some 1, email = py_lower accent_email, name = ''E'', is_admin = False,
                created_at = ''2024-01-01T11:00:05.000001'',
                last_login = Some ''2024-01-01T11:00:05.000002''\<rparr>,
          demo_accent_user) \<and>
   remove_allowed_email demo_accent_user accent_email = demo_accent_user \<and>
   get_or_create_user (remove_allowed_email demo_accent_user accent_email)
       (py_lower accent_email) ''E'' ''2024-01-02 09:00:00'' ''2024-01-02T10:00:00.000001''
       ''2024-01-02T10:00:00.000002'' =
     Inr (Some \<lparr>id' = Some 1, email = py_lower accent_email, name = ''E'', is_admin = False,
                created_at = ''2024-01-01 10:00:05'',
                last_login = Some ''2024-01-02T10:00:00.000001''\<rparr>,
          demo_accent_user\<lparr>users :=
            [\<lparr>u_id = 1, u_email = py_lower accent_email, u_name = ''E'', u_is_admin = False,
              u_created_at = ''2024-01-01 10:00:05'',
              u_last_login = Some ''2024-01-02 09:00:00''\<rparr>]\<rparr>)"
  by code_simp

section \<open>Notes\<close>

lemma filter_all: "(\<forall>x\<in>set xs. P x) \<Longrightarrow> filter P xs = xs"
  by (induction xs) auto

text \<open>
  An id that does not fit SQLite's 64-bit \<^verbatim>\<open>INTEGER\<close> makes the call raise, and
  the database is not touched.
\<close>

lemma delete_note_out_of_range:
  "\<not> sqlite_int nid \<or> \<not> sqlite_int uid \<Longrightarrow> delete_note db nid uid = Inl OverflowError"
  by (auto simp: delete_note_def)

lemma add_note_out_of_range: "\<not> sqlite_int uid \<Longrightarrow> add_note db uid content now = Inl OverflowError"
  by (simp add: add_note_def)

text \<open>
  C4 (amended). For a note id and a user id within the signed 64-bit range,
  \<^verbatim>\<open>delete_note\<close> returns, without an error, true exactly when some note has this id
  and this owner; the notes that remain are all the others, in their order, and the other
  tables are untouched. When no note has this id and this owner (it does not exist, or it
  is another user's) the result is false and the database is what it was.
\<close>

theorem delete_note_owner_only:
  assumes "sqlite_int nid" and "sqlite_int uid"
  shows "\<exists>b db'. delete_note db nid uid = Inr (b, db') \<and>
           b = (\<exists>n \<in> set (notes db). n_id n = nid \<and> n_user_id n = uid) \<and>
           notes db' = filter (\<lambda>n. \<not> (n_id n = nid \<and> n_user_id n = uid)) (notes db) \<and>
           users db' = users db \<and>
           allowed_emails db' = allowed_emails db \<and>
           ((\<forall>n \<in> set (notes db). \<not> (n_id n = nid \<and> n_user_id n = uid)) \<longrightarrow>
              delete_note db nid uid = Inr (False, db))"
proof -
  let ?m = "\<lambda>n. n_id n = nid \<and> n_user_id n = uid"
  let ?db' = "db\<lparr>notes := filter (\<lambda>n. \<not> ?m n) (notes db)\<rparr>"
  let ?b = "\<exists>n \<in> set (notes db). ?m n"
  have r: "delete_note db nid uid = Inr (?b, ?db')"
    using assms
    by (simp add: delete_note_def Let_def length_greater_0_conv filter_empty_conv)
  have n: "(\<forall>n \<in> set (notes db). \<not> ?m n) \<longrightarrow> delete_note db nid uid = Inr (False, db)"
  proof
    assume h: "\<forall>n \<in> set (notes db). \<not> ?m n"
    then have "filter (\<lambda>n. \<not> ?m n) (notes db) = notes db" by (rule filter_all)
    then have "?db' = db" by simp
    with r h show "delete_note db nid uid = Inr (False, db)" by simp
  qed
  have "delete_note db nid uid = Inr (?b, ?db') \<and> ?b = ?b \<and>
        notes ?db' = filter (\<lambda>n. \<not> ?m n) (notes db) \<and> users ?db' = users db \<and>
        allowed_emails ?db' = allowed_emails db \<and>
        ((\<forall>n \<in> set (notes db). \<not> ?m n) \<longrightarrow> delete_note db nid uid = Inr (False, db))"
    using r n by simp
  then show ?thesis by blast
qed

text \<open>
  User 1 owns note 1. User 2 deleting it gets false and the database stays; user 1
  deleting it gets true and the note is gone.
\<close>

theorem delete_note_owner_only_witness:
  "delete_note demo_note 1 2 = Inr (False, demo_note) \<and>
   (\<exists>db'. delete_note demo_note 1 1 = Inr (True, db') \<and> notes db' = [])"
proof -
  have r1: "sqlite_int 1" and r2: "sqlite_int 2" by (simp_all add: sqlite_int_def)
  have none: "\<forall>n \<in> set (notes demo_note). \<not> (n_id n = 1 \<and> n_user_id n = 2)"
    by code_simp
  have some: "\<exists>n \<in> set (notes demo_note). n_id n = 1 \<and> n_user_id n = 1"
    by code_simp
  have rest: "filter (\<lambda>n. \<not> (n_id n = 1 \<and> n_user_id n = 1)) (notes demo_note) = []"
    by code_simp
  from delete_note_owner_only [OF r1 r2, of demo_note] none
  have a: "delete_note demo_note 1 2 = Inr (False, demo_note)" by blast
  from delete_note_owner_only [OF r1 r1, of demo_note]
  obtain b db' where d: "delete_note demo_note 1 1 = Inr (b, db')"
    and b: "b = (\<exists>n \<in> set (notes demo_note). n_id n = 1 \<and> n_user_id n = 1)"
    and k: "notes db' = filter (\<lambda>n. \<not> (n_id n = 1 \<and> n_user_id n = 1)) (notes demo_note)"
    by blast
  from b some have "b = True" by simp
  with d k rest have "delete_note demo_note 1 1 = Inr (True, db') \<and> notes db' = []" by simp
  with a show ?thesis by blast
qed

text \<open>
  C4 as stated fails for a note id beyond the 64-bit range, such as the route
  \<^verbatim>\<open>/notes/{note_id}\<close> accepts: the call raises instead of returning false.
\<close>

theorem delete_note_overflow_counterexample:
  "delete_note demo_note 9223372036854775808 1 = Inl OverflowError"
  by (simp add: delete_note_def sqlite_int_def)

lemma next_rowid_fresh: "next_rowid s ids \<notin> set ids"
  and next_rowid_gt: "s < next_rowid s ids"
  and next_rowid_above: "i \<in> set ids \<Longrightarrow> i < next_rowid s ids"
proof -
  have fin: "finite (set (s # ids))" by simp
  show "s < next_rowid s ids"
    unfolding next_rowid_def using Max_ge [OF fin, of s] by simp
  show *: "i < next_rowid s ids" if "i \<in> set ids" for i
    unfolding next_rowid_def using Max_ge [OF fin, of i] that by simp
  show "next_rowid s ids \<notin> set ids" using * by blast
qed




section \<open>Listing notes\<close>

lemma order_by_desc_snoc: "order_by_desc f (xs @ [x]) = insort_desc f x (order_by_desc f xs)"
  by (simp add: order_by_desc_def)

lemma order_by_desc_Nil: "order_by_desc f [] = []"
  by (simp add: order_by_desc_def)

lemma set_insort_desc: "set (insort_desc f x ys) = insert x (set ys)"
  by (induction ys) auto

lemma set_order_by_desc: "set (order_by_desc f xs) = set xs"
  by (induction xs rule: rev_induct)
    (simp_all add: order_by_desc_Nil order_by_desc_snoc set_insort_desc)

lemma insort_desc_newest: "(\<forall>y \<in> set ys. f y < f x) \<Longrightarrow> insort_desc f x ys = x # ys"
  by (cases ys) auto

lemma sorted_insort_desc:
  "sorted_wrt (\<lambda>a b. f b \<le> f a) ys \<Longrightarrow> sorted_wrt (\<lambda>a b. f b \<le> f a) (insort_desc f x ys)"
  by (induction ys) (auto simp: set_insort_desc)

lemma sorted_order_by_desc: "sorted_wrt (\<lambda>a b. f b \<le> f a) (order_by_desc f xs)"
  by (induction xs rule: rev_induct)
    (simp_all add: order_by_desc_Nil order_by_desc_snoc sorted_insort_desc)

lemma get_notes_sorted:
  "get_notes db u = Inr ns \<Longrightarrow> sorted_wrt (\<lambda>a b. n_created_at b \<le> n_created_at a) ns"
  by (auto simp: get_notes_def sorted_order_by_desc split: if_splits)

lemma get_notes_add_note:
  assumes "\<forall>n \<in> set (notes db). n_user_id n = u \<longrightarrow> n_created_at n < t"
    and "add_note db u c t = Inr (i, db')"
  shows "\<exists>old. get_notes db u = Inr old \<and>
           get_notes db' u =
             Inr (\<lparr>n_id = i, n_user_id = u, n_content = c, n_created_at = t\<rparr> # old)"
proof -
  have u: "sqlite_int u"
    using assms(2) by (simp add: add_note_def split: if_splits)
  have "\<forall>y \<in> set (order_by_desc n_created_at (filter (\<lambda>n. n_user_id n = u) (notes db))).
          n_created_at y < t"
    using assms(1) by (simp add: set_order_by_desc)
  then show ?thesis
    using assms(2) u
    by (auto simp: get_notes_def add_note_def Let_def order_by_desc_snoc insort_desc_newest)
qed

lemma notes_add_note:
  "add_note db u c t = Inr (i, db') \<Longrightarrow>
     set (notes db') =
       insert \<lparr>n_id = i, n_user_id = u, n_content = c, n_created_at = t\<rparr> (set (notes db))"
  by (auto simp: add_note_def Let_def split: if_splits)

text \<open>
  C5 (amended). \<^verbatim>\<open>get_notes\<close> is ordered by \<open>created_at\<close>, latest first. When
  three notes of one user are written at strictly increasing timestamps, each later than
  every note the user already has, the list starts with them in the order N3, N2, N1.
\<close>

theorem get_notes_newest_first:
  assumes "t1 < t2" and "t2 < t3"
    and "\<forall>n \<in> set (notes db). n_user_id n = u \<longrightarrow> n_created_at n < t1"
    and "add_note db u c1 t1 = Inr (i1, db1)"
    and "add_note db1 u c2 t2 = Inr (i2, db2)"
    and "add_note db2 u c3 t3 = Inr (i3, db3)"
  shows "\<exists>old. get_notes db u = Inr old \<and>
           get_notes db3 u =
             Inr ([\<lparr>n_id = i3, n_user_id = u, n_content = c3, n_created_at = t3\<rparr>,
                   \<lparr>n_id = i2, n_user_id = u, n_content = c2, n_created_at = t2\<rparr>,
                   \<lparr>n_id = i1, n_user_id = u, n_content = c1, n_created_at = t1\<rparr>] @ old) \<and>
           sorted_wrt (\<lambda>a b. n_created_at b \<le> n_created_at a)
             ([\<lparr>n_id = i3, n_user_id = u, n_content = c3, n_created_at = t3\<rparr>,
               \<lparr>n_id = i2, n_user_id = u, n_content = c2, n_created_at = t2\<rparr>,
               \<lparr>n_id = i1, n_user_id = u, n_content = c1, n_created_at = t1\<rparr>] @ old)"
proof -
  let ?n1 = "\<lparr>n_id = i1, n_user_id = u, n_content = c1, n_created_at = t1\<rparr>"
  let ?n2 = "\<lparr>n_id = i2, n_user_id = u, n_content = c2, n_created_at = t2\<rparr>"
  let ?n3 = "\<lparr>n_id = i3, n_user_id = u, n_content = c3, n_created_at = t3\<rparr>"
  from get_notes_add_note [OF assms(3,4)]
  obtain old where g0: "get_notes db u = Inr old" and g1: "get_notes db1 u = Inr (?n1 # old)"
    by blast
  have b1: "\<forall>n \<in> set (notes db1). n_user_id n = u \<longrightarrow> n_created_at n < t2"
    unfolding notes_add_note [OF assms(4)] using assms(1,3) by auto
  from get_notes_add_note [OF b1 assms(5)] g1
  have g2: "get_notes db2 u = Inr (?n2 # ?n1 # old)" by auto
  have b2: "\<forall>n \<in> set (notes db2). n_user_id n = u \<longrightarrow> n_created_at n < t3"
    unfolding notes_add_note [OF assms(5)] using assms(2) b1 by auto
  from get_notes_add_note [OF b2 assms(6)] g2
  have g3: "get_notes db3 u = Inr (?n3 # ?n2 # ?n1 # old)" by auto
  from g3 have "sorted_wrt (\<lambda>a b. n_created_at b \<le> n_created_at a) (?n3 # ?n2 # ?n1 # old)"
    by (rule get_notes_sorted)
  with g0 g3 show ?thesis by simp
qed

text \<open>Three notes written a second apart come back as N3, N2, N1.\<close>

theorem get_notes_newest_first_witness:
  "get_notes demo_three 1 =
     Inr [\<lparr>n_id = 3, n_user_id = 1, n_content = ''N3'', n_created_at = ''2024-01-01 10:00:02''\<rparr>,
          \<lparr>n_id = 2, n_user_id = 1, n_content = ''N2'', n_created_at = ''2024-01-01 10:00:01''\<rparr>,
          \<lparr>n_id = 1, n_user_id = 1, n_content = ''N1'', n_created_at = ''2024-01-01 10:00:00''\<rparr>]"
proof -
  let ?d1 = "with_note init_db 1 ''N1'' ''2024-01-01 10:00:00''"
  let ?d2 = "with_note ?d1 1 ''N2'' ''2024-01-01 10:00:01''"
  have lt1: "''2024-01-01 10:00:00'' < ''2024-01-01 10:00:01''" by simp
  have lt2: "''2024-01-01 10:00:01'' < ''2024-01-01 10:00:02''" by simp
  have old: "\<forall>n \<in> set (notes init_db). n_user_id n = 1 \<longrightarrow> n_created_at n < ''2024-01-01 10:00:00''"
    by (simp add: init_db_def)
  have e1: "add_note init_db 1 ''N1'' ''2024-01-01 10:00:00'' = Inr (1, ?d1)"
    by code_simp
  have e2: "add_note ?d1 1 ''N2'' ''2024-01-01 10:00:01'' = Inr (2, ?d2)"
    by code_simp
  have e3: "add_note ?d2 1 ''N3'' ''2024-01-01 10:00:02'' = Inr (3, demo_three)"
    by code_simp
  have none: "get_notes init_db 1 = Inr []" by code_simp
  from get_notes_newest_first [OF lt1 lt2 old e1 e2 e3] none
  show ?thesis by auto
qed

text \<open>
  C5 as stated fails when the three notes are written within one second:
  \<^verbatim>\<open>CURRENT_TIMESTAMP\<close> has the resolution of a second, the keys are equal, and the
  rows come back in the order of their insertion.
\<close>

theorem get_notes_same_second_counterexample:
  "get_notes demo_same_second 1 =
     Inr [\<lparr>n_id = 1, n_user_id = 1, n_content = ''N1'', n_created_at = ''2024-01-01 10:00:00''\<rparr>,
          \<lparr>n_id = 2, n_user_id = 1, n_content = ''N2'', n_created_at = ''2024-01-01 10:00:00''\<rparr>,
          \<lparr>n_id = 3, n_user_id = 1, n_content = ''N3'', n_created_at = ''2024-01-01 10:00:00''\<rparr>] \<and>
   get_notes demo_same_second 1 \<noteq>
     Inr [\<lparr>n_id = 3, n_user_id = 1, n_content = ''N3'', n_created_at = ''2024-01-01 10:00:00''\<rparr>,
          \<lparr>n_id = 2, n_user_id = 1, n_content = ''N2'', n_created_at = ''2024-01-01 10:00:00''\<rparr>,
          \<lparr>n_id = 1, n_user_id = 1, n_content = ''N1'', n_created_at = ''2024-01-01 10:00:00''\<rparr>]"
  by code_simp

section \<open>The login of an existing user\<close>

lemma map_update_key:
  assumes "distinct (map k xs)" and "i < length xs"
  shows "map (\<lambda>r. if k r = k (xs ! i) then g r else r) xs = xs[i := g (xs ! i)]"
proof (rule nth_equalityI)
  show "length (map (\<lambda>r. if k r = k (xs ! i) then g r else r) xs) = length (xs[i := g (xs ! i)])"
    by simp
next
  fix j assume "j < length (map (\<lambda>r. if k r = k (xs ! i) then g r else r) xs)"
  then have j: "j < length xs" by simp
  have "k (xs ! j) = k (xs ! i) \<longleftrightarrow> j = i"
    using assms j nth_eq_iff_index_eq [of "map k xs" j i] by simp
  then show "map (\<lambda>r. if k r = k (xs ! i) then g r else r) xs ! j = xs[i := g (xs ! i)] ! j"
    using j by (simp add: nth_list_update)
qed

text \<open>
  C9. For an allowed address whose row in \<open>users\<close> exists (the first row the query
  \<^verbatim>\<open>LOWER(email) = LOWER(?)\<close> finds), with the ids of \<open>users\<close> distinct as the primary
  key has them: the result is the \<^verbatim>\<open>User\<close> of that row, with the time of the call as
  its \<open>last_login\<close>; in the database that one row has its \<open>last_login\<close> set and
  nothing else differs.
\<close>

theorem existing_user_only_last_login:
  assumes "is_email_allowed db e"
    and "find (\<lambda>r. sql_lower (u_email r) = sql_lower e) (users db) = Some row"
    and "distinct (map u_id (users db))"
  shows "\<exists>i < length (users db). users db ! i = row \<and>
           get_or_create_user db e nm sql_now py_now1 py_now2 =
             Inr (Some \<lparr>id' = Some (u_id row), email = u_email row, name = u_name row,
                        is_admin = u_is_admin row, created_at = u_created_at row,
                        last_login = Some py_now1\<rparr>,
                  db\<lparr>users := (users db)[i := row\<lparr>u_last_login := Some sql_now\<rparr>]\<rparr>)"
proof -
  from assms(2) obtain i where i: "i < length (users db)" and r: "users db ! i = row"
    by (auto simp: find_Some_iff)
  have "map (\<lambda>r. if u_id r = u_id (users db ! i) then r\<lparr>u_last_login := Some sql_now\<rparr> else r)
          (users db) = (users db)[i := (users db ! i)\<lparr>u_last_login := Some sql_now\<rparr>]"
    using assms(3) i by (rule map_update_key)
  then have "get_or_create_user db e nm sql_now py_now1 py_now2 =
             Inr (Some \<lparr>id' = Some (u_id row), email = u_email row, name = u_name row,
                        is_admin = u_is_admin row, created_at = u_created_at row,
                        last_login = Some py_now1\<rparr>,
                  db\<lparr>users := (users db)[i := row\<lparr>u_last_login := Some sql_now\<rparr>]\<rparr>)"
    using assms(1,2) r by (simp add: get_or_create_user_def row_user_def)
  with i r show ?thesis by blast
qed

theorem existing_user_only_last_login_witness:
  "get_or_create_user demo_logged_in ''FOO@bar.com'' ''Other Name'' ''2024-01-02 09:00:00''
      ''2024-01-02T10:00:00.000001'' ''2024-01-02T10:00:00.000002'' =
    Inr (Some \<lparr>id' = Some 1, email = ''foo@bar.com'', name = ''Foo'', is_admin = False,
               created_at = ''2024-01-01 10:00:05'',
               last_login = Some ''2024-01-02T10:00:00.000001''\<rparr>,
         demo_logged_in\<lparr>users :=
           [\<lparr>u_id = 1, u_email = ''foo@bar.com'', u_name = ''Foo'', u_is_admin = False,
             u_created_at = ''2024-01-01 10:00:05'',
             u_last_login = Some ''2024-01-02 09:00:00''\<rparr>]\<rparr>)"
proof -
  let ?row = "\<lparr>u_id = 1, u_email = ''foo@bar.com'', u_name = ''Foo'', u_is_admin = False,
                 u_created_at = ''2024-01-01 10:00:05'', u_last_login = None\<rparr>"
  have a: "is_email_allowed demo_logged_in ''FOO@bar.com''" by code_simp
  have f: "find (\<lambda>r. sql_lower (u_email r) = sql_lower ''FOO@bar.com'') (users demo_logged_in) =
             Some ?row"
    by code_simp
  have d: "distinct (map u_id (users demo_logged_in))" by code_simp
  have u: "users demo_logged_in = [?row]" by (simp add: demo_logged_in_def)
  from existing_user_only_last_login [OF a f d, of "''Other Name''" "''2024-01-02 09:00:00''"
      "''2024-01-02T10:00:00.000001''" "''2024-01-02T10:00:00.000002''"]
  obtain i where "i < length (users demo_logged_in)"
    and "get_or_create_user demo_logged_in ''FOO@bar.com'' ''Other Name'' ''2024-01-02 09:00:00''
      ''2024-01-02T10:00:00.000001'' ''2024-01-02T10:00:00.000002'' =
      Inr (Some \<lparr>id' = Some (u_id ?row), email = u_email ?row, name = u_name ?row,
                        is_admin = u_is_admin ?row, created_at = u_created_at ?row,
                        last_login = Some ''2024-01-02T10:00:00.000001''\<rparr>,
           demo_logged_in\<lparr>users := (users demo_logged_in)[i := ?row\<lparr>u_last_login := Some ''2024-01-02 09:00:00''\<rparr>]\<rparr>)"
    by blast
  then show ?thesis by (simp add: u)
qed

section \<open>The allow-list\<close>


lemma add_allowed_email_member:
  "py_lower e \<in> set (map a_email (allowed_emails (add_allowed_email db e b t)))"
  by (simp add: add_allowed_email_def Let_def)



lemma remove_allowed_email_ok: "allow_list_ok db \<Longrightarrow> allow_list_ok (remove_allowed_email db e)"
  by (auto simp: allow_list_ok_def remove_allowed_email_def distinct_map_filter)






section \<open>Case of the address\<close>

lemma no_conflict_when_ascii:
  assumes "py_lower e = sql_lower e"
    and "find (\<lambda>r. sql_lower (u_email r) = sql_lower e) (users db) = None"
  shows "py_lower e \<notin> set (map u_email (users db))"
proof
  assume "py_lower e \<in> set (map u_email (users db))"
  then obtain r where r: "r \<in> set (users db)" and "u_email r = py_lower e" by auto
  then have "sql_lower (u_email r) = sql_lower e"
    using assms(1) by (simp add: sql_lower_idem)
  with assms(2) r show False by (simp add: find_None_iff)
qed

lemma get_or_create_user_emails:
  assumes "get_or_create_user db e nm sql_now py_now1 py_now2 = Inr (r, db')"
  shows "map u_email (users db') = map u_email (users db) \<or>
         map u_email (users db') = map u_email (users db) @ [py_lower e]"
proof -
  have m: "map u_email (map (\<lambda>r. if u_id r = k then r\<lparr>u_last_login := Some sql_now\<rparr> else r) xs) =
        map u_email xs" for k xs
    by (induction xs) auto
  show ?thesis
    using assms m
    by (auto simp: get_or_create_user_def Let_def split: if_splits option.splits)
qed

text \<open>
  Where the two lower-casings agree on the address, that is when its capitals are all
  ASCII letters, matching is without regard to case: after \<^verbatim>\<open>add_allowed_email\<close> of
  any casing \<open>e'\<close> of \<open>e\<close>, \<open>e\<close> is allowed and \<^verbatim>\<open>get_or_create_user\<close> returns a
  user, no error and no denial. And whatever the address, a call of
  \<^verbatim>\<open>get_or_create_user\<close> leaves the e-mail column of \<open>users\<close> as it was or appends
  the lower-cased address to it, which lower-casing leaves fixed.
\<close>

lemma ascii_addresses_match:
  assumes "py_lower e = sql_lower e" and "py_lower e' = py_lower e"
  shows "is_email_allowed (add_allowed_email db e' b t) e \<and>
         (\<exists>u db'. get_or_create_user (add_allowed_email db e' b t) e nm sql_now py_now1 py_now2 =
                    Inr (Some u, db')) \<and>
         (get_or_create_user db0 e0 nm0 sql_now0 py_now3 py_now4 = Inr (r, db1) \<longrightarrow>
            map u_email (users db1) = map u_email (users db0) \<or>
            map u_email (users db1) = map u_email (users db0) @ [py_lower e0] \<and>
            py_lower (py_lower e0) = py_lower e0)"
proof -
  let ?D = "add_allowed_email db e' b t"
  have "py_lower e \<in> set (map a_email (allowed_emails ?D))"
    using add_allowed_email_member [of e' db b t] assms(2) by simp
  then obtain row where row: "row \<in> set (allowed_emails ?D)" and "a_email row = py_lower e"
    by auto
  then have "sql_lower (a_email row) = sql_lower e"
    using assms(1) by (simp add: sql_lower_idem)
  with row have al: "is_email_allowed ?D e"
    unfolding is_email_allowed_iff by blast
  have ex: "\<exists>u db'. get_or_create_user ?D e nm sql_now py_now1 py_now2 = Inr (Some u, db')"
  proof (cases "find (\<lambda>r. sql_lower (u_email r) = sql_lower e) (users ?D)")
    case None
    with assms(1) have "py_lower e \<notin> set (map u_email (users ?D))"
      by (rule no_conflict_when_ascii)
    with al None show ?thesis
      by (simp add: get_or_create_user_def Let_def)
  next
    case (Some row)
    with al show ?thesis by (simp add: get_or_create_user_def)
  qed
  have wr: "get_or_create_user db0 e0 nm0 sql_now0 py_now3 py_now4 = Inr (r, db1) \<longrightarrow>
            map u_email (users db1) = map u_email (users db0) \<or>
            map u_email (users db1) = map u_email (users db0) @ [py_lower e0] \<and>
            py_lower (py_lower e0) = py_lower e0"
    using get_or_create_user_emails [of db0 e0 nm0 sql_now0 py_now3 py_now4 r db1]
    by (auto simp: py_lower_idem)
  from al ex wr show ?thesis by blast
qed

lemma ascii_addresses_match_example:
  "is_email_allowed (add_allowed_email init_db ''foo@bar.com'' ''system'' ''2024-01-01 10:00:00'')
     ''Foo@Bar.com'' \<and>
   (\<exists>u db'. get_or_create_user
       (add_allowed_email init_db ''foo@bar.com'' ''system'' ''2024-01-01 10:00:00'')
       ''Foo@Bar.com'' ''x'' ''2024-01-01 10:00:05'' ''2024-01-01T11:00:05.000001''
       ''2024-01-01T11:00:05.000002'' = Inr (Some u, db'))"
proof -
  have a: "py_lower ''Foo@Bar.com'' = sql_lower ''Foo@Bar.com''" by code_simp
  have b: "py_lower ''foo@bar.com'' = py_lower ''Foo@Bar.com''" by code_simp
  from ascii_addresses_match [OF a b] show ?thesis by blast
qed

text \<open>
  Where they disagree, that is when the address has a capital outside ASCII, no
  allow-list that \<^verbatim>\<open>add_allowed_email\<close> has built lets the address in, whatever was
  added, and \<^verbatim>\<open>remove_allowed_email\<close> of it removes nothing.
\<close>

lemma accent_never_matches:
  assumes "allow_list_ok db" and "py_lower e \<noteq> sql_lower e"
  shows "\<not> is_email_allowed db e" and "remove_allowed_email db e = db"
proof -
  have no: "sql_lower (a_email r) \<noteq> sql_lower e" if r: "r \<in> set (allowed_emails db)" for r
  proof
    assume eq: "sql_lower (a_email r) = sql_lower e"
    from assms(1) r have c: "py_lower (a_email r) = a_email r"
      by (simp add: allow_list_ok_def)
    then have "sql_lower (a_email r) = a_email r"
      by (metis sql_lower_py_lower)
    with eq have "a_email r = sql_lower e" by simp
    with c have "py_lower (sql_lower e) = sql_lower e" by simp
    then have "py_lower e = sql_lower e" by (simp add: py_lower_sql_lower)
    with assms(2) show False by simp
  qed
  then show "\<not> is_email_allowed db e"
    by (auto simp: is_email_allowed_iff)
  from no show "remove_allowed_email db e = db"
    by (simp add: remove_allowed_email_def filter_all)
qed

text \<open>
  C3. The address with the capital U+00C9 is put on the allow-list of the fresh database:
  the row stored has U+00E9, Python's lower-casing. The login of the very address that
  was added is denied, since the query compares with SQLite's \<^verbatim>\<open>LOWER\<close>, which
  leaves U+00C9 as it is.
\<close>

theorem accented_address_denied:
  "map a_email (allowed_emails demo_accent) = [py_lower accent_email] \<and>
   get_or_create_user demo_accent accent_email ''x'' ''2024-01-01 10:00:05''
     ''2024-01-01T11:00:05.000001'' ''2024-01-01T11:00:05.000002'' = Inr (None, demo_accent)"
  by code_simp

section \<open>The first login\<close>

text \<open>
  On the path that creates the user, whatever the address and the database: the row
  appended has no \<open>last_login\<close>, while the \<^verbatim>\<open>User\<close> returned has one.
\<close>

lemma new_user_row:
  assumes "is_email_allowed db e"
    and "find (\<lambda>r. sql_lower (u_email r) = sql_lower e) (users db) = None"
    and "py_lower e \<notin> set (map u_email (users db))"
  shows "\<exists>rid. get_or_create_user db e nm sql_now py_now1 py_now2 =
           Inr (Some \<lparr>id' = Some rid, email = py_lower e, name = nm, is_admin = False,
                      created_at = py_now1, last_login = Some py_now2\<rparr>,
                db\<lparr>users := users db @
                       [\<lparr>u_id = rid, u_email = py_lower e, u_name = nm, u_is_admin = False,
                         u_created_at = sql_now, u_last_login = None\<rparr>],
                   seq_users := rid\<rparr>)"
  using assms by (simp add: get_or_create_user_def Let_def)

text \<open>
  C2. The first login of \<open>Foo@Bar.com\<close>: the \<^verbatim>\<open>User\<close> returned carries a
  \<open>last_login\<close>, the row that was inserted has none, and reading the user back gives
  \<open>last_login\<close> \<^verbatim>\<open>None\<close>.
\<close>

theorem first_login_stores_null_last_login:
  "get_or_create_user demo_allow ''Foo@Bar.com'' ''Foo'' ''2024-01-01 10:00:05''
     ''2024-01-01T11:00:05.000001'' ''2024-01-01T11:00:05.000002'' =
     Inr (Some \<lparr>id' = Some 1, email = ''foo@bar.com'', name = ''Foo'', is_admin = False,
                created_at = ''2024-01-01T11:00:05.000001'',
                last_login = Some ''2024-01-01T11:00:05.000002''\<rparr>,
          demo_logged_in) \<and>
   map u_last_login (users demo_logged_in) = [None] \<and>
   map_option last_login (get_user_by_email demo_logged_in ''foo@bar.com'') = Some None"
  by code_simp

section \<open>The guards\<close>

text \<open>
  C8. \<^verbatim>\<open>require_auth\<close> and \<^verbatim>\<open>require_admin\<close> return the database they were
  given, and their answer is the same whatever the database: it is a function of the
  session. In particular \<^verbatim>\<open>set_admin\<close> does not change the answer of
  \<^verbatim>\<open>require_admin\<close> for a session taken before it.
\<close>

theorem guards_ignore_store:
  "require_auth db s = (fst (require_auth db' s), db) \<and>
   require_admin db s = (fst (require_admin db' s), db) \<and>
   fst (require_admin (set_admin db e v) s) = fst (require_admin db s)"
  by (simp add: require_auth_def require_admin_def)

text \<open>
  The first login of \<open>Foo@Bar.com\<close>, not an administrator, leaves a session whose
  \<open>is_admin\<close> is false.
\<close>

lemma demo_login: "get_auth demo_allow demo_info Map.empty ''2024-01-01 10:00:05''
             ''2024-01-01T11:00:05.000001'' ''2024-01-01T11:00:05.000002'' =
   Inr (RedirectResponse ''/'' 303,
        [''user_email'' \<mapsto> SStr ''foo@bar.com'', ''user_name'' \<mapsto> SStr ''Foo'',
         ''user_id'' \<mapsto> SInt 1, ''is_admin'' \<mapsto> SBool False],
        demo_logged_in)"
proof -
  have g: "get_or_create_user demo_allow ''Foo@Bar.com'' ''Foo'' ''2024-01-01 10:00:05''
     ''2024-01-01T11:00:05.000001'' ''2024-01-01T11:00:05.000002'' =
     Inr (Some \<lparr>id' = Some 1, email = ''foo@bar.com'', name = ''Foo'', is_admin = False,
                created_at = ''2024-01-01T11:00:05.000001'',
                last_login = Some ''2024-01-01T11:00:05.000002''\<rparr>,
          demo_logged_in)"
    by code_simp
  have e: "auth_email demo_info = ''Foo@Bar.com''" by (simp add: auth_email_def demo_info_def)
  have n: "auth_name demo_info = ''Foo''" by (simp add: auth_name_def auth_email_def demo_info_def)
  have v: "info_email_verified demo_info = Some True" by (simp add: demo_info_def)
  show ?thesis
    by (simp add: get_auth_def e n v g)
qed

lemma demo_session_is_admin: "demo_session ''is_admin'' = Some (SBool False)"
  by (simp add: demo_session_def demo_login)


text \<open>
  After \<^verbatim>\<open>set_admin\<close> the store says administrator, and the guard on the session
  taken before still refuses.
\<close>

theorem guards_ignore_store_witness:
  "fst (require_admin (set_admin demo_logged_in ''foo@bar.com'' True) demo_session) =
     Some (RedirectResponse ''/error?msg=Admin+access+required'' 303) \<and>
   map_option is_admin (get_user_by_email (set_admin demo_logged_in ''foo@bar.com'' True)
     ''foo@bar.com'') = Some True"
proof -
  have old: "fst (require_admin demo_logged_in demo_session) =
     Some (RedirectResponse ''/error?msg=Admin+access+required'' 303)"
    by (simp add: require_admin_def demo_session_is_admin)
  have store: "map_option is_admin (get_user_by_email (set_admin demo_logged_in ''foo@bar.com'' True)
     ''foo@bar.com'') = Some True" by code_simp
  have "fst (require_admin (set_admin demo_logged_in ''foo@bar.com'' True) demo_session) =
        fst (require_admin demo_logged_in demo_session)"
    using guards_ignore_store [of demo_logged_in demo_session demo_logged_in
        "''foo@bar.com''" True]
    by blast
  with old store show ?thesis by simp
qed

section \<open>The primary key of \<open>users\<close>\<close>

text \<open>
  \<^verbatim>\<open>get_or_create_user\<close> keeps the ids of \<open>users\<close> distinct: an update leaves
  them, an insertion takes an id above all of them.
\<close>

lemma get_or_create_user_ids:
  assumes "get_or_create_user db e nm sql_now py_now1 py_now2 = Inr (r, db')"
    and "distinct (map u_id (users db))"
  shows "distinct (map u_id (users db'))"
proof -
  have m: "u_id \<circ> (\<lambda>r. if u_id r = k then r\<lparr>u_last_login := Some sql_now\<rparr> else r) = u_id"
    for k by (auto simp: fun_eq_iff)
  have f: "next_rowid (seq_users db) (map u_id (users db)) \<notin> set (map u_id (users db))"
    by (rule next_rowid_fresh)
  show ?thesis
    using assms f
    by (auto simp: get_or_create_user_def Let_def m split: if_splits option.splits)
qed

end
